theory Spec2Isabelle
  imports Main
begin

section \<open>Go strings\<close>

text \<open>
  A Go string is a sequence of bytes; \<^typ>\<open>string\<close> is a list of 8-bit characters, so
  \<^const>\<open>length\<close> is Go's \<open>len\<close> and \<^term>\<open>drop n s\<close> is the slice \<open>s[n:]\<close> whenever
  \<open>n \<le> len(s)\<close> (the slice panics otherwise).
\<close>

definition HasPrefix :: "string \<Rightarrow> string \<Rightarrow> bool" where
  \<comment> \<open>strings.HasPrefix: \<open>len(s) >= len(prefix) && s[0:len(prefix)] == prefix\<close>\<close>
  "HasPrefix s pre = (length pre \<le> length s \<and> take (length pre) s = pre)"

subsection \<open>UTF-8 decoding and white space\<close>

text \<open>
  \<open>strings.Fields\<close> reads its argument rune by rune. A rune is a Unicode code point;
  decoding follows \<open>utf8.DecodeRuneInString\<close>: an invalid or truncated encoding decodes
  to \<open>RuneError\<close> of width one byte.
\<close>

type_synonym rune = nat

definition RuneError :: rune where
  "RuneError = 0xFFFD"

definition utf8_size :: "nat \<Rightarrow> nat" where
  \<comment> \<open>the length the first byte announces: 1 for ASCII, 0 for a byte that starts no
      encoding (continuation bytes, \<open>0xC0\<close>, \<open>0xC1\<close>, \<open>0xF5\<close> and above)\<close>
  "utf8_size s0 =
     (if s0 < 0x80 then 1
      else if s0 < 0xC2 then 0
      else if s0 < 0xE0 then 2
      else if s0 < 0xF0 then 3
      else if s0 < 0xF5 then 4
      else 0)"

definition accept_lo :: "nat \<Rightarrow> nat" where
  "accept_lo s0 = (if s0 = 0xE0 then 0xA0 else if s0 = 0xF0 then 0x90 else 0x80)"

definition accept_hi :: "nat \<Rightarrow> nat" where
  "accept_hi s0 = (if s0 = 0xED then 0x9F else if s0 = 0xF4 then 0x8F else 0xBF)"

definition continuation :: "nat \<Rightarrow> bool" where
  "continuation b = (0x80 \<le> b \<and> b \<le> 0xBF)"

fun DecodeRune :: "nat list \<Rightarrow> rune \<times> nat" where
  "DecodeRune [] = (RuneError, 0)"
| "DecodeRune (s0 # t) =
     (let sz = utf8_size s0 in
      if sz = 1 then (s0, 1)
      else if sz = 0 then (RuneError, 1)
      else if length (s0 # t) < sz then (RuneError, 1)
      else
        (let s1 = t ! 0 in
         if s1 < accept_lo s0 \<or> accept_hi s0 < s1 then (RuneError, 1)
         else if sz \<le> 2 then ((s0 mod 32) * 64 + s1 mod 64, 2)
         else
           (let s2 = t ! 1 in
            if \<not> continuation s2 then (RuneError, 1)
            else if sz \<le> 3 then ((s0 mod 16) * 4096 + (s1 mod 64) * 64 + s2 mod 64, 3)
            else
              (let s3 = t ! 2 in
               if \<not> continuation s3 then (RuneError, 1)
               else
                 ((s0 mod 8) * 262144 + (s1 mod 64) * 4096 + (s2 mod 64) * 64 + s3 mod 64,
                  4)))))"

definition DecodeRuneInString :: "string \<Rightarrow> rune \<times> nat" where
  "DecodeRuneInString s = DecodeRune (map of_char s)"

definition IsSpace :: "rune \<Rightarrow> bool" where
  \<comment> \<open>unicode.IsSpace: the Latin-1 spaces, then the table \<open>White_Space\<close>\<close>
  "IsSpace r =
     (if r \<le> 0xFF then r \<in> {0x09, 0x0A, 0x0B, 0x0C, 0x0D, 0x20, 0x85, 0xA0}
      else r = 0x1680 \<or> (0x2000 \<le> r \<and> r \<le> 0x200A) \<or> r = 0x2028 \<or> r = 0x2029
           \<or> r = 0x202F \<or> r = 0x205F \<or> r = 0x3000)"

lemma DecodeRune_width: "s \<noteq> [] \<Longrightarrow> 0 < snd (DecodeRune s)"
  by (cases s) (simp_all add: Let_def)

lemma DecodeRuneInString_width: "s \<noteq> [] \<Longrightarrow> 0 < snd (DecodeRuneInString s)"
  by (simp add: DecodeRuneInString_def DecodeRune_width)

subsection \<open>Splitting on white space\<close>

text \<open>
  The loop of \<open>strings.FieldsFunc\<close>: \<open>i\<close> is the byte offset of the rune under the
  cursor, \<open>fieldStart\<close> the offset where the open field began (\<open>None\<close> is the source's
  \<open>-1\<close>) and \<open>a\<close> the fields found so far.
\<close>

function FieldsFunc_loop ::
  "(rune \<Rightarrow> bool) \<Rightarrow> string \<Rightarrow> nat \<Rightarrow> nat option \<Rightarrow> string list \<Rightarrow> string list" where
  "FieldsFunc_loop f s i fieldStart a =
     (if i < length s then
        (let r = fst (DecodeRuneInString (drop i s));
             w = snd (DecodeRuneInString (drop i s)) in
         if f r then
           (case fieldStart of
              Some st \<Rightarrow> FieldsFunc_loop f s (i + w) None (a @ [take (i - st) (drop st s)])
            | None \<Rightarrow> FieldsFunc_loop f s (i + w) None a)
         else FieldsFunc_loop f s (i + w) (if fieldStart = None then Some i else fieldStart) a)
      else
        (case fieldStart of
           Some st \<Rightarrow> a @ [drop st s]
         | None \<Rightarrow> a))"
  by pat_completeness auto
termination
proof (relation "measure (\<lambda>(f, s, i, fieldStart, a). length s - i)")
  show "wf (measure (\<lambda>(f, s, i, fieldStart, a). length s - i))" by simp
next
  fix f :: "rune \<Rightarrow> bool" and s :: string and i :: nat and fieldStart :: "nat option"
    and a :: "string list" and x xa x2
  assume "i < length s" and "xa = snd (DecodeRuneInString (drop i s))"
  then have "0 < xa" using DecodeRuneInString_width [of "drop i s"] by simp
  then show "((f, s, i + xa, None, a @ [take (i - x2) (drop x2 s)]), f, s, i, fieldStart, a)
       \<in> measure (\<lambda>(f, s, i, fieldStart, a). length s - i)"
    using \<open>i < length s\<close> by simp
next
  fix f :: "rune \<Rightarrow> bool" and s :: string and i :: nat and fieldStart :: "nat option"
    and a :: "string list" and x xa
  assume "i < length s" and "xa = snd (DecodeRuneInString (drop i s))"
  then have "0 < xa" using DecodeRuneInString_width [of "drop i s"] by simp
  then show "((f, s, i + xa, None, a), f, s, i, fieldStart, a)
       \<in> measure (\<lambda>(f, s, i, fieldStart, a). length s - i)"
    using \<open>i < length s\<close> by simp
next
  fix f :: "rune \<Rightarrow> bool" and s :: string and i :: nat and fieldStart :: "nat option"
    and a :: "string list" and x xa
  assume "i < length s" and "xa = snd (DecodeRuneInString (drop i s))"
  then have "0 < xa" using DecodeRuneInString_width [of "drop i s"] by simp
  then show "((f, s, i + xa, if fieldStart = None then Some i else fieldStart, a),
        f, s, i, fieldStart, a)
       \<in> measure (\<lambda>(f, s, i, fieldStart, a). length s - i)"
    using \<open>i < length s\<close> by simp
qed

definition FieldsFunc :: "string \<Rightarrow> (rune \<Rightarrow> bool) \<Rightarrow> string list" where
  "FieldsFunc s f = FieldsFunc_loop f s 0 None []"

definition Fields :: "string \<Rightarrow> string list" where
  \<comment> \<open>strings.Fields: the maximal runs of runes that are not white space\<close>
  "Fields s = FieldsFunc s IsSpace"

fun strings_Join :: "string list \<Rightarrow> string \<Rightarrow> string" where
  "strings_Join [] sep = []"
| "strings_Join [a] sep = a"
| "strings_Join (a # b # rest) sep = a @ sep @ strings_Join (b # rest) sep"

subsection \<open>Paths\<close>

text \<open>
  \<open>path.Clean\<close> and \<open>path.Join\<close>. \<open>Clean_loop\<close> is the loop of \<open>Clean\<close>: \<open>r\<close> is the
  read offset into \<open>path\<close>, \<open>out\<close> the bytes written so far (the source's \<open>out.w\<close> is
  its length) and \<open>dotdot\<close> the offset in \<open>out\<close> below which \<open>..\<close> cannot backtrack.
  \<open>backtrack out dotdot w\<close> is the source's inner loop, started after its first \<open>out.w--\<close>.
\<close>

fun backtrack :: "string \<Rightarrow> nat \<Rightarrow> nat \<Rightarrow> nat" where
  "backtrack out dotdot 0 = 0"
| "backtrack out dotdot (Suc w) =
     (if Suc w > dotdot \<and> out ! Suc w \<noteq> CHR ''/'' then backtrack out dotdot w else Suc w)"

lemma takeWhile_elem_nonempty:
  "r < length path \<Longrightarrow> path ! r \<noteq> CHR ''/'' \<Longrightarrow>
   0 < length (takeWhile (\<lambda>c. c \<noteq> CHR ''/'') (drop r path))"
  by (cases "drop r path") (auto simp: hd_drop_conv_nth dest: arg_cong [where f = hd])

lemma Clean_elem_progress:
  assumes "r < length path" and "path ! r \<noteq> CHR ''/''"
  shows "length path - (r + length (takeWhile (\<lambda>c. c \<noteq> CHR ''/'') (drop r path)))
           < length path - r"
proof -
  have "0 < length (takeWhile (\<lambda>c. c \<noteq> CHR ''/'') (drop r path))"
    using assms by (rule takeWhile_elem_nonempty)
  moreover have "length (takeWhile (\<lambda>c. c \<noteq> CHR ''/'') (drop r path)) \<le> length path - r"
    using length_takeWhile_le [of _ "drop r path"] by simp
  ultimately show ?thesis using assms(1) by linarith
qed

function Clean_loop :: "string \<Rightarrow> bool \<Rightarrow> nat \<Rightarrow> string \<Rightarrow> nat \<Rightarrow> string" where
  "Clean_loop path rooted r out dotdot =
     (let n = length path in
      if r < n then
        (if path ! r = CHR ''/'' then Clean_loop path rooted (r + 1) out dotdot
         else if path ! r = CHR ''.'' \<and> (r + 1 = n \<or> path ! (r + 1) = CHR ''/'')
           then Clean_loop path rooted (r + 1) out dotdot
         else if path ! r = CHR ''.'' \<and> path ! (r + 1) = CHR ''.''
                 \<and> (r + 2 = n \<or> path ! (r + 2) = CHR ''/'')
           then
             (if length out > dotdot
                then Clean_loop path rooted (r + 2)
                       (take (backtrack out dotdot (length out - 1)) out) dotdot
              else if \<not> rooted
                then Clean_loop path rooted (r + 2)
                       ((if length out > 0 then out @ ''/'' else out) @ ''..'')
                       (length ((if length out > 0 then out @ ''/'' else out) @ ''..''))
              else Clean_loop path rooted (r + 2) out dotdot)
         else
           Clean_loop path rooted
             (r + length (takeWhile (\<lambda>c. c \<noteq> CHR ''/'') (drop r path)))
             ((if rooted \<and> length out \<noteq> 1 \<or> \<not> rooted \<and> length out \<noteq> 0
               then out @ ''/'' else out)
              @ takeWhile (\<lambda>c. c \<noteq> CHR ''/'') (drop r path))
             dotdot)
      else if out = [] then ''.'' else out)"
  by pat_completeness auto
termination
  by (relation "measure (\<lambda>(path, rooted, r, out, dotdot). length path - r)")
     (auto simp: Clean_elem_progress)

definition Clean :: "string \<Rightarrow> string" where
  "Clean path =
     (if path = [] then ''.''
      else if path ! 0 = CHR ''/'' then Clean_loop path True 1 ''/'' 1
      else Clean_loop path False 0 [] 0)"

definition path_Join :: "string list \<Rightarrow> string" where
  \<comment> \<open>from the first non-empty element on, the elements joined by a slash, cleaned\<close>
  "path_Join elem =
     (case dropWhile (\<lambda>e. e = []) elem of
        [] \<Rightarrow> []
      | e # rest \<Rightarrow> Clean (strings_Join (e # rest) ''/''))"


section \<open>The backend descriptor\<close>

record vcsCmd =
  name :: string
  cmd :: string
  meta :: string
  createCmd :: string
  downloadCmd :: string
  checkoutCmd :: string

definition vcsGit :: vcsCmd where
  "vcsGit =
     \<lparr>name = ''Git'',
      cmd = ''git'',
      meta = ''.git'',
      createCmd = ''clone {repo} {dir} -b {branch}'',
      downloadCmd = ''checkout -f tags/{tag}'',
      checkoutCmd = ''checkout {version}''\<rparr>"

definition vcsList :: "vcsCmd list" where
  "vcsList = [vcsGit]"

fun vcsByCmd_in :: "vcsCmd list \<Rightarrow> string \<Rightarrow> vcsCmd option" where
  "vcsByCmd_in [] c = None"
| "vcsByCmd_in (vcs # rest) c = (if cmd vcs = c then Some vcs else vcsByCmd_in rest c)"

definition vcsByCmd :: "string \<Rightarrow> vcsCmd option" where
  \<comment> \<open>the loop over \<open>vcsList\<close>; \<open>None\<close> is the nil pointer\<close>
  "vcsByCmd c = vcsByCmd_in vcsList c"

definition getVcsByUrl :: "string \<Rightarrow> vcsCmd" where
  "getVcsByUrl url = vcsGit"

section \<open>Errors, commands and the world outside\<close>

text \<open>
  Go's \<open>error\<close> values, as far as the driver meets them: the sentinel \<open>os.ErrNotExist\<close>, a
  \<open>syscall.Errno\<close>, an \<open>*os.PathError\<close> (operation, path, cause), an \<open>*exec.Error\<close> (the
  file looked up, cause), an \<open>*exec.ExitError\<close> (exit status) and any other error by its
  message. A nil error is \<open>None\<close>.
\<close>

datatype go_error =
    ErrNotExist
  | Errno nat
  | PathError string string go_error
  | ExecError string go_error
  | ExitError nat
  | ErrorString string

definition ENOENT :: nat where
  "ENOENT = 2"

fun underlyingError :: "go_error \<Rightarrow> go_error" where
  "underlyingError (PathError opn p e) = e"
| "underlyingError e = e"

definition IsNotExist :: "go_error \<Rightarrow> bool" where
  \<comment> \<open>os.IsNotExist: the error under a \<open>PathError\<close> is \<open>ENOENT\<close> or \<open>ErrNotExist\<close>\<close>
  "IsNotExist err =
     (case underlyingError err of
        ErrNotExist \<Rightarrow> True
      | Errno n \<Rightarrow> n = ENOENT
      | _ \<Rightarrow> False)"

text \<open>A run-time panic ends the program; indexing a slice out of range is the only one here.\<close>

datatype panic = IndexOutOfRange

record FileInfo =
  Name :: string
  IsDir :: bool

text \<open>
  What \<open>exec.Command(name, args...)\<close> followed by the assignments to \<open>cmd.Dir\<close> and
  \<open>cmd.Env\<close> asks the operating system to run: \<open>Path\<close> is the name as given, \<open>Args\<close> the
  argument vector with that name in front.
\<close>

record Cmd =
  Path :: string
  Args :: "string list"
  Dir :: string
  Env :: "string list"

text \<open>
  The effects of the driver, in the order they happen: \<open>Spawn c\<close> is the call of
  \<open>cmd.Run()\<close> on the command \<open>c\<close>, which starts the subprocess and waits for it (a
  subprocess that cannot be started is an error of \<open>Run\<close>); \<open>LogPrintf\<close> is a line given to
  \<open>log.Printf\<close>; \<open>StderrWrite\<close> is bytes written to \<open>os.Stderr\<close>. The state threaded through
  the driver is the list of effects so far, and \<open>spawned\<close> reads the commands off it.
\<close>

datatype event = Spawn Cmd | LogPrintf string | StderrWrite string

fun spawned :: "event list \<Rightarrow> Cmd list" where
  "spawned [] = []"
| "spawned (Spawn c # es) = c # spawned es"
| "spawned (e # es) = spawned es"

text \<open>
  Everything the driver reads from outside itself. \<open>LookPath\<close>, \<open>Run\<close> and \<open>Stat\<close> answer
  for the operating system; they are given the effects so far, so an answer may depend
  on all that happened before (a clone changes what a later lookup or command finds).
  \<open>Run\<close> gives the combined standard output and standard error of the subprocess and
  the error of \<open>cmd.Run\<close>. The functions \<open>expand\<close> and \<open>envForDir\<close> are called by \<open>run1\<close>
  and defined in another file of the repository; here they are parameters.
\<close>

record world =
  LookPath :: "event list \<Rightarrow> string \<Rightarrow> go_error + string"
  Run :: "event list \<Rightarrow> Cmd \<Rightarrow> string \<times> go_error option"
  Stat :: "event list \<Rightarrow> string \<Rightarrow> go_error + FileInfo"
  expand :: "(string \<rightharpoonup> string) \<Rightarrow> string \<Rightarrow> string"
  envForDir :: "string \<Rightarrow> string list"

text \<open>
  Modelled from the spec: \<open>expand\<close>, which \<open>run1\<close> calls on every token, is not in
  \<open>vcs.go\<close>. The specification says that it substitutes \<open>{key}\<close> placeholders within a
  token, and that a placeholder whose key was not supplied stays in the token as it is
  written. \<open>expand_spec\<close> reads the token once from left to right. It instantiates the
  parameter \<open>expand\<close> in examples only; no theorem below depends on it otherwise.
\<close>

function expand_spec :: "(string \<rightharpoonup> string) \<Rightarrow> string \<Rightarrow> string" where
  "expand_spec m [] = []"
| "expand_spec m (c # cs) =
     (if c = CHR ''{'' \<and> CHR ''}'' \<in> set cs then
        (case m (takeWhile (\<lambda>x. x \<noteq> CHR ''}'') cs) of
           Some val \<Rightarrow> val @ expand_spec m (tl (dropWhile (\<lambda>x. x \<noteq> CHR ''}'') cs))
         | None \<Rightarrow> c # expand_spec m cs)
      else c # expand_spec m cs)"
  by pat_completeness auto
termination
  by (relation "measure (\<lambda>(m, s). length s)")
     (auto simp: less_Suc_eq_le intro: le_trans [OF diff_le_self length_dropWhile_le])

section \<open>Version identifiers\<close>

definition parseVersion :: "vcsCmd \<Rightarrow> string \<Rightarrow> string \<times> string" where
  \<comment> \<open>the pair is \<open>(tag, commit)\<close>; in the first branch \<open>len(version) >= 4\<close>, so
      \<open>version[4:]\<close> is in range\<close>
  "parseVersion v version =
     (if HasPrefix version ''sha:'' then (''master'', drop 4 version)
      else (version, ''''))"

section \<open>Existence check, subprocess runner, create and checkout\<close>

definition exists :: "world \<Rightarrow> vcsCmd \<Rightarrow> event list \<Rightarrow> string \<Rightarrow> bool" where
  "exists w v tr dst =
     (case Stat w tr (path_Join [dst, meta v]) of
        Inr fi \<Rightarrow> True
      | Inl err \<Rightarrow> \<not> IsNotExist err)"

text \<open>
  The first loop of \<open>run1\<close>, which fills the map \<open>m\<close> from \<open>keyval\<close>. Reading
  \<open>keyval[i+1]\<close> past the end of the slice panics.
\<close>

function keyval_loop ::
  "string list \<Rightarrow> nat \<Rightarrow> (string \<rightharpoonup> string) \<Rightarrow> panic + (string \<rightharpoonup> string)" where
  "keyval_loop keyval i m =
     (if i < length keyval then
        (if i + 1 < length keyval
         then keyval_loop keyval (i + 2) (m(keyval ! i \<mapsto> keyval ! (i + 1)))
         else Inl IndexOutOfRange)
      else Inr m)"
  by pat_completeness auto
termination
  by (relation "measure (\<lambda>(keyval, i, m). length keyval - i)") auto

text \<open>
  \<open>run1\<close> returns the pair of the source (the output, empty for the nil slice, and the
  error) together with the effects, or panics.
\<close>

definition run1 ::
  "world \<Rightarrow> vcsCmd \<Rightarrow> string \<Rightarrow> string \<Rightarrow> string list \<Rightarrow> bool \<Rightarrow> event list
     \<Rightarrow> panic + ((string \<times> go_error option) \<times> event list)" where
  "run1 w v dir cmdline keyval verbose tr =
     (case keyval_loop keyval 0 Map.empty of
        Inl p \<Rightarrow> Inl p
      | Inr m \<Rightarrow>
          (let args = map (expand w m) (Fields cmdline) in
           case LookPath w tr (cmd v) of
             Inl err \<Rightarrow>
               Inr (([], Some err),
                    tr @ [LogPrintf (''gover: missing '' @ name v
                            @ '' command. See http://golang.org/s/gogetcmd'' @ [CHR 0x0A])])
           | Inr resolved \<Rightarrow>
               (let c = \<lparr>Path = cmd v, Args = cmd v # args, Dir = dir, Env = envForDir w dir\<rparr>;
                    out = fst (Run w tr c);
                    tr1 = tr @ [Spawn c]
                in case snd (Run w tr c) of
                     Some err \<Rightarrow>
                       Inr (([], Some err),
                            if verbose
                            then tr1 @ [LogPrintf (''# cd '' @ dir @ ''; '' @ cmd v @ '' ''
                                          @ strings_Join args '' '' @ [CHR 0x0A]),
                                        StderrWrite out]
                            else tr1)
                   | None \<Rightarrow> Inr ((out, None), tr1))))"

definition run ::
  "world \<Rightarrow> vcsCmd \<Rightarrow> string \<Rightarrow> string \<Rightarrow> string list \<Rightarrow> event list
     \<Rightarrow> panic + (go_error option \<times> event list)" where
  "run w v dir cmdline keyval tr =
     (case run1 w v dir cmdline keyval True tr of
        Inl p \<Rightarrow> Inl p
      | Inr (res, tr') \<Rightarrow> Inr (snd res, tr'))"

definition runVerboseOnly ::
  "world \<Rightarrow> vcsCmd \<Rightarrow> string \<Rightarrow> string \<Rightarrow> string list \<Rightarrow> event list
     \<Rightarrow> panic + (go_error option \<times> event list)" where
  "runVerboseOnly w v dir cmdline keyval tr =
     (case run1 w v dir cmdline keyval False tr of
        Inl p \<Rightarrow> Inl p
      | Inr (res, tr') \<Rightarrow> Inr (snd res, tr'))"

definition runOutput ::
  "world \<Rightarrow> vcsCmd \<Rightarrow> string \<Rightarrow> string \<Rightarrow> string list \<Rightarrow> event list
     \<Rightarrow> panic + ((string \<times> go_error option) \<times> event list)" where
  "runOutput w v dir cmdline keyval tr = run1 w v dir cmdline keyval True tr"

definition create ::
  "world \<Rightarrow> vcsCmd \<Rightarrow> string \<Rightarrow> string \<Rightarrow> string \<Rightarrow> event list
     \<Rightarrow> panic + (go_error option \<times> event list)" where
  "create w v dir repo version tr =
     (let tag = fst (parseVersion v version);
          commit = snd (parseVersion v version)
      in case run w v ''.'' (createCmd v) [''dir'', dir, ''repo'', repo, ''branch'', tag] tr of
           Inl p \<Rightarrow> Inl p
         | Inr (Some err, tr1) \<Rightarrow> Inr (Some err, tr1)
         | Inr (None, tr1) \<Rightarrow>
             if commit \<noteq> [] then run w v dir (checkoutCmd v) [''version'', commit] tr1
             else Inr (None, tr1))"

definition checkout ::
  "world \<Rightarrow> vcsCmd \<Rightarrow> string \<Rightarrow> string \<Rightarrow> event list
     \<Rightarrow> panic + (go_error option \<times> event list)" where
  "checkout w v dir version tr =
     (let tag = fst (parseVersion v version);
          commit = snd (parseVersion v version)
      in if commit \<noteq> [] then run w v dir (checkoutCmd v) [''version'', commit] tr
         else run w v dir (downloadCmd v) [''tag'', tag] tr)"

text \<open>
  The command \<open>run1\<close> spawns for a template under a substitution map, written once for
  the statements below.
\<close>

definition tool_command ::
  "world \<Rightarrow> vcsCmd \<Rightarrow> string \<Rightarrow> string \<Rightarrow> (string \<rightharpoonup> string) \<Rightarrow> Cmd" where
  "tool_command w v dir cmdline m =
     \<lparr>Path = cmd v, Args = cmd v # map (expand w m) (Fields cmdline), Dir = dir,
      Env = envForDir w dir\<rparr>"

subsection \<open>Example worlds\<close>

text \<open>
  Three worlds for the examples. In each, \<open>/tmp/w/.git\<close> exists, \<open>/root/.git\<close> cannot be
  examined (\<open>EACCES\<close>) and nothing else exists. \<open>world_ok\<close> finds \<open>git\<close> and every command
  succeeds; in \<open>world_exit\<close> every command exits with status 128; \<open>world_no_tool\<close> finds
  no executable at all.
\<close>

definition ErrNotFound :: go_error where
  "ErrNotFound = ErrorString ''executable file not found in $PATH''"

definition example_Stat :: "event list \<Rightarrow> string \<Rightarrow> go_error + FileInfo" where
  "example_Stat tr p =
     (if p = ''/tmp/w/.git'' then Inr \<lparr>Name = ''.git'', IsDir = True\<rparr>
      else if p = ''/root/.git'' then Inl (PathError ''stat'' p (Errno 13))
      else Inl (PathError ''stat'' p (Errno ENOENT)))"

definition world_ok :: world where
  "world_ok =
     \<lparr>LookPath = (\<lambda>tr file. if file = ''git'' then Inr ''/usr/bin/git''
                    else Inl (ExecError file ErrNotFound)),
      Run = (\<lambda>tr c. (''done'', None)),
      Stat = example_Stat,
      expand = expand_spec,
      envForDir = (\<lambda>dir. [''PWD='' @ dir])\<rparr>"

definition world_exit :: world where
  "world_exit = world_ok\<lparr>Run := (\<lambda>tr c. (''fatal: failed'', Some (ExitError 128)))\<rparr>"

definition world_no_tool :: world where
  "world_no_tool = world_ok\<lparr>LookPath := (\<lambda>tr file. Inl (ExecError file ErrNotFound))\<rparr>"

section \<open>Auxiliary facts\<close>

declare keyval_loop.simps [simp del] expand_spec.simps [simp del]
  FieldsFunc_loop.simps [simp del] Clean_loop.simps [simp del]

subsection \<open>The prefix test\<close>

lemma HasPrefix_iff_append: "HasPrefix s pre \<longleftrightarrow> (\<exists>rest. s = pre @ rest)"
proof
  assume "HasPrefix s pre"
  then have "s = pre @ drop (length pre) s"
    by (metis HasPrefix_def append_take_drop_id)
  then show "\<exists>rest. s = pre @ rest" ..
next
  assume "\<exists>rest. s = pre @ rest"
  then show "HasPrefix s pre"
    by (auto simp: HasPrefix_def)
qed

lemma HasPrefix_slice_in_range: "HasPrefix version ''sha:'' \<Longrightarrow> 4 \<le> length version"
  by (simp add: HasPrefix_def)

lemma parseVersion_examples:
  "parseVersion v ''sha:abc123'' = (''master'', ''abc123'')"
  "parseVersion v ''sha:deadbeef'' = (''master'', ''deadbeef'')"
  "parseVersion v ''release-2'' = (''release-2'', [])"
  "parseVersion v ''sha:'' = (''master'', [])"
  by (simp_all add: parseVersion_def HasPrefix_def)

subsection \<open>The pairing loop\<close>

lemma spawned_append: "spawned (xs @ ys) = spawned xs @ spawned ys"
  by (induction xs rule: spawned.induct) simp_all

lemma keyval_loop_done: "length keyval \<le> i \<Longrightarrow> keyval_loop keyval i m = Inr m"
  by (simp add: keyval_loop.simps [of keyval i m])

lemma keyval_loop_last: "Suc i = length keyval \<Longrightarrow> keyval_loop keyval i m = Inl IndexOutOfRange"
  by (simp add: keyval_loop.simps [of keyval i m])

lemma keyval_loop_step:
  "Suc i < length keyval \<Longrightarrow>
   keyval_loop keyval i m = keyval_loop keyval (Suc (Suc i)) (m(keyval ! i \<mapsto> keyval ! Suc i))"
  by (simp add: keyval_loop.simps [of keyval i m])

lemma keyval_loop_even:
  "i \<le> length keyval \<Longrightarrow>
   (\<exists>m'. keyval_loop keyval i m = Inr m') \<longleftrightarrow> even (length keyval - i)"
proof (induction keyval i m rule: keyval_loop.induct)
  case (1 keyval i m)
  consider "i = length keyval" | "Suc i = length keyval" | "Suc i < length keyval"
    using "1.prems" by linarith
  then show ?case
  proof cases
    case 1
    then show ?thesis by (simp add: keyval_loop_done)
  next
    case 2
    then have "length keyval - i = 1" by simp
    with 2 show ?thesis by (simp add: keyval_loop_last)
  next
    case 3
    then have a: "i < length keyval" "i + 1 < length keyval" "i + 2 \<le> length keyval"
      by simp_all
    note ih = "1.IH" [OF a]
    have step: "keyval_loop keyval i m
        = keyval_loop keyval (i + 2) (m(keyval ! i \<mapsto> keyval ! (i + 1)))"
      using a by (subst keyval_loop.simps) simp
    have "length keyval - i = Suc (Suc (length keyval - (i + 2)))"
      using a by simp
    then have par: "even (length keyval - i) = even (length keyval - (i + 2))"
      by simp
    show ?thesis
      unfolding step par by (rule ih)
  qed
qed

lemma keyval_loop_Inr_iff: "(\<exists>m'. keyval_loop keyval 0 m = Inr m') \<longleftrightarrow> even (length keyval)"
  using keyval_loop_even [of 0 keyval m] by simp

lemma keyval_loop_panic_iff:
  "keyval_loop keyval 0 m = Inl IndexOutOfRange \<longleftrightarrow> odd (length keyval)"
proof -
  have "(\<exists>m'. keyval_loop keyval 0 m = Inr m') \<longleftrightarrow> even (length keyval)"
    using keyval_loop_even [of 0 keyval m] by simp
  moreover have "keyval_loop keyval 0 m = Inl IndexOutOfRange
      \<longleftrightarrow> \<not> (\<exists>m'. keyval_loop keyval 0 m = Inr m')"
    by (cases "keyval_loop keyval 0 m") (auto intro: panic.exhaust)
  ultimately show ?thesis by simp
qed

lemma keyval_loop_2: "keyval_loop [k, x] 0 m = Inr (m(k \<mapsto> x))"
  by (simp add: keyval_loop_step keyval_loop_done)

lemma keyval_loop_6:
  "keyval_loop [k1, x1, k2, x2, k3, x3] 0 m = Inr (m(k1 \<mapsto> x1, k2 \<mapsto> x2, k3 \<mapsto> x3))"
  by (simp add: keyval_loop_step keyval_loop_done)

subsection \<open>The runner, case by case\<close>

lemma run1_panic:
  "keyval_loop keyval 0 Map.empty = Inl p \<Longrightarrow> run1 w v dir cmdline keyval verbose tr = Inl p"
  by (simp add: run1_def)

lemma run1_no_tool:
  assumes "keyval_loop keyval 0 Map.empty = Inr m" and "LookPath w tr (cmd v) = Inl err"
  shows "run1 w v dir cmdline keyval verbose tr =
     Inr (([], Some err),
          tr @ [LogPrintf (''gover: missing '' @ name v
                  @ '' command. See http://golang.org/s/gogetcmd'' @ [CHR 0x0A])])"
  using assms by (simp add: run1_def)

lemma run1_failed:
  assumes "keyval_loop keyval 0 Map.empty = Inr m" and "LookPath w tr (cmd v) = Inr p"
    and "snd (Run w tr (tool_command w v dir cmdline m)) = Some err"
  shows "run1 w v dir cmdline keyval verbose tr =
     Inr (([], Some err),
          tr @ Spawn (tool_command w v dir cmdline m)
             # (if verbose
                then [LogPrintf (''# cd '' @ dir @ ''; '' @ cmd v @ '' ''
                        @ strings_Join (map (expand w m) (Fields cmdline)) '' '' @ [CHR 0x0A]),
                      StderrWrite (fst (Run w tr (tool_command w v dir cmdline m)))]
                else []))"
  using assms by (simp add: run1_def tool_command_def Let_def)

lemma run1_succeeded:
  assumes "keyval_loop keyval 0 Map.empty = Inr m" and "LookPath w tr (cmd v) = Inr p"
    and "snd (Run w tr (tool_command w v dir cmdline m)) = None"
  shows "run1 w v dir cmdline keyval verbose tr =
     Inr ((fst (Run w tr (tool_command w v dir cmdline m)), None),
          tr @ [Spawn (tool_command w v dir cmdline m)])"
  using assms by (simp add: run1_def tool_command_def Let_def)

lemma run1_cases:
  assumes "keyval_loop keyval 0 Map.empty = Inr m"
  shows "run1 w v dir cmdline keyval verbose tr =
     (case LookPath w tr (cmd v) of
        Inl err \<Rightarrow>
          Inr (([], Some err),
               tr @ [LogPrintf (''gover: missing '' @ name v
                       @ '' command. See http://golang.org/s/gogetcmd'' @ [CHR 0x0A])])
      | Inr p \<Rightarrow>
          (case snd (Run w tr (tool_command w v dir cmdline m)) of
             Some err \<Rightarrow>
               Inr (([], Some err),
                    tr @ Spawn (tool_command w v dir cmdline m)
                       # (if verbose
                          then [LogPrintf (''# cd '' @ dir @ ''; '' @ cmd v @ '' ''
                                  @ strings_Join (map (expand w m) (Fields cmdline)) '' ''
                                  @ [CHR 0x0A]),
                                StderrWrite (fst (Run w tr (tool_command w v dir cmdline m)))]
                          else []))
           | None \<Rightarrow>
               Inr ((fst (Run w tr (tool_command w v dir cmdline m)), None),
                    tr @ [Spawn (tool_command w v dir cmdline m)])))"
proof (cases "LookPath w tr (cmd v)")
  case (Inl err)
  with assms show ?thesis
    by (simp add: run1_no_tool)
next
  case (Inr p)
  show ?thesis
  proof (cases "snd (Run w tr (tool_command w v dir cmdline m))")
    case None
    with assms Inr show ?thesis
      by (simp add: run1_succeeded)
  next
    case (Some err)
    with assms Inr show ?thesis
      by (simp add: run1_failed)
  qed
qed

lemma run1_error_no_output:
  "run1 w v dir cmdline keyval verbose tr = Inr ((out, Some e), tr') \<Longrightarrow> out = []"
proof (cases "keyval_loop keyval 0 Map.empty")
  case (Inl p)
  then show "run1 w v dir cmdline keyval verbose tr = Inr ((out, Some e), tr') \<Longrightarrow> out = []"
    by (simp add: run1_panic)
next
  case (Inr m)
  show "run1 w v dir cmdline keyval verbose tr = Inr ((out, Some e), tr') \<Longrightarrow> out = []"
    unfolding run1_cases [OF Inr]
    by (auto split: sum.splits option.splits)
qed

lemma run_cases:
  assumes "keyval_loop keyval 0 Map.empty = Inr m"
  shows "run w v dir cmdline keyval tr =
     (case LookPath w tr (cmd v) of
        Inl err \<Rightarrow>
          Inr (Some err,
               tr @ [LogPrintf (''gover: missing '' @ name v
                       @ '' command. See http://golang.org/s/gogetcmd'' @ [CHR 0x0A])])
      | Inr p \<Rightarrow>
          (case snd (Run w tr (tool_command w v dir cmdline m)) of
             Some err \<Rightarrow>
               Inr (Some err,
                    tr @ [Spawn (tool_command w v dir cmdline m),
                          LogPrintf (''# cd '' @ dir @ ''; '' @ cmd v @ '' ''
                            @ strings_Join (map (expand w m) (Fields cmdline)) '' ''
                            @ [CHR 0x0A]),
                          StderrWrite (fst (Run w tr (tool_command w v dir cmdline m)))])
           | None \<Rightarrow> Inr (None, tr @ [Spawn (tool_command w v dir cmdline m)])))"
proof (cases "LookPath w tr (cmd v)")
  case (Inl err)
  with assms show ?thesis
    by (simp add: run_def run1_no_tool)
next
  case (Inr p)
  show ?thesis
  proof (cases "snd (Run w tr (tool_command w v dir cmdline m))")
    case None
    with assms Inr show ?thesis
      by (simp add: run_def run1_succeeded)
  next
    case (Some err)
    with assms Inr show ?thesis
      by (simp add: run_def run1_failed)
  qed
qed

lemma run_spawned:
  assumes "keyval_loop keyval 0 Map.empty = Inr m"
  shows "\<exists>err tr'. run w v dir cmdline keyval tr = Inr (err, tr')
     \<and> spawned tr' = spawned tr @
          (if isl (LookPath w tr (cmd v)) then [] else [tool_command w v dir cmdline m])
     \<and> (err = None \<longrightarrow> tr' = tr @ [Spawn (tool_command w v dir cmdline m)])
     \<and> (err = None \<longleftrightarrow>
          \<not> isl (LookPath w tr (cmd v))
          \<and> snd (Run w tr (tool_command w v dir cmdline m)) = None)"
  unfolding run_cases [OF assms]
  by (auto simp: spawned_append split: sum.splits option.splits)

lemma run_total:
  assumes "keyval_loop keyval 0 Map.empty = Inr m"
  shows "\<exists>err tr'. run w v dir cmdline keyval tr = Inr (err, tr')"
  using run_spawned [OF assms, of w v dir cmdline tr] by blast

lemma checkout_total: "\<exists>err tr'. checkout w v dir version tr = Inr (err, tr')"
  unfolding checkout_def Let_def
  using run_total [OF keyval_loop_2] by (cases "snd (parseVersion v version) = []") simp_all

lemma create_total: "\<exists>err tr'. create w v dir repo version tr = Inr (err, tr')"
proof -
  obtain err1 tr1 where r1: "run w v ''.'' (createCmd v)
      [''dir'', dir, ''repo'', repo, ''branch'', fst (parseVersion v version)] tr = Inr (err1, tr1)"
    using run_total [OF keyval_loop_6] by blast
  obtain err2 tr2 where r2: "run w v dir (checkoutCmd v)
      [''version'', snd (parseVersion v version)] tr1 = Inr (err2, tr2)"
    using run_total [OF keyval_loop_2] by blast
  show ?thesis
    using r1 r2 by (cases err1) (simp_all add: create_def Let_def)
qed

subsection \<open>The examples, evaluated\<close>

lemma Fields_createCmd:
  "Fields ''clone {repo} {dir} -b {branch}'' = [''clone'', ''{repo}'', ''{dir}'', ''-b'', ''{branch}'']"
  by code_simp

lemma Fields_downloadCmd: "Fields ''checkout -f tags/{tag}'' = [''checkout'', ''-f'', ''tags/{tag}'']"
  by code_simp

lemma Fields_checkoutCmd: "Fields ''checkout {version}'' = [''checkout'', ''{version}'']"
  by code_simp

lemma path_Join_tmp: "path_Join [''/tmp/w'', ''.git''] = ''/tmp/w/.git''"
  by code_simp

lemma path_Join_root: "path_Join [''/root'', ''.git''] = ''/root/.git''"
  by code_simp

lemma path_Join_x: "path_Join [''/tmp/x'', ''.git''] = ''/tmp/x/.git''"
  by code_simp

lemma expand_create_example:
  "map (expand_spec [''dir'' \<mapsto> ''/tmp/w'', ''repo'' \<mapsto> ''https://x/y z.git'', ''branch'' \<mapsto> ''master''])
     [''clone'', ''{repo}'', ''{dir}'', ''-b'', ''{branch}'']
   = [''clone'', ''https://x/y z.git'', ''/tmp/w'', ''-b'', ''master'']"
  by code_simp

lemma expand_checkout_example:
  "map (expand_spec [''version'' \<mapsto> ''abc123'']) [''checkout'', ''{version}'']
   = [''checkout'', ''abc123'']"
  by code_simp

lemma expand_download_example:
  "map (expand_spec [''tag'' \<mapsto> ''master'']) [''checkout'', ''-f'', ''tags/{tag}'']
   = [''checkout'', ''-f'', ''tags/master'']"
  by code_simp

lemma expand_create_scenario:
  "map (expand_spec [''dir'' \<mapsto> ''/tmp/w'', ''repo'' \<mapsto> ''https://example.com/r.git'',
                     ''branch'' \<mapsto> ''master''])
     [''clone'', ''{repo}'', ''{dir}'', ''-b'', ''{branch}'']
   = [''clone'', ''https://example.com/r.git'', ''/tmp/w'', ''-b'', ''master'']"
  by code_simp

lemma expand_checkout_scenario:
  "map (expand_spec [''version'' \<mapsto> ''deadbeef'']) [''checkout'', ''{version}'']
   = [''checkout'', ''deadbeef'']"
  by code_simp

lemma expand_download_scenario:
  "map (expand_spec [''tag'' \<mapsto> ''release-2'']) [''checkout'', ''-f'', ''tags/{tag}'']
   = [''checkout'', ''-f'', ''tags/release-2'']"
  by code_simp

lemma LookPath_world_ok: "LookPath world_ok tr (cmd vcsGit) = Inr ''/usr/bin/git''"
  by (simp add: world_ok_def vcsGit_def)

lemma LookPath_world_exit: "LookPath world_exit tr (cmd vcsGit) = Inr ''/usr/bin/git''"
  by (simp add: world_exit_def world_ok_def vcsGit_def)

lemma LookPath_world_no_tool:
  "LookPath world_no_tool tr (cmd vcsGit) = Inl (ExecError ''git'' ErrNotFound)"
  by (simp add: world_no_tool_def world_ok_def vcsGit_def)

lemma Run_world_ok: "Run world_ok tr c = (''done'', None)"
  by (simp add: world_ok_def)

lemma Run_world_exit: "Run world_exit tr c = (''fatal: failed'', Some (ExitError 128))"
  by (simp add: world_exit_def)

section \<open>Create and checkout\<close>

text \<open>
  C1. \<open>create\<close> first runs the create template, in the working directory \<open>.\<close>, with
  \<open>dir\<close>, \<open>repo\<close> and \<open>branch\<close> bound to the directory, the repository locator and the
  parsed tag. When that step returned no error and the parsed commit is not empty, it
  runs the checkout-to-commit template inside the directory with \<open>version\<close> bound to the
  commit; otherwise there is no second step, and the outcome of the first step is the
  outcome of \<open>create\<close>. In terms of effects: the subprocesses spawned are the create
  command and then, under the same two conditions, the commit checkout, each provided
  the tool was found.
\<close>

theorem create_steps:
  "create w v dir repo version tr =
     (case run w v ''.'' (createCmd v)
             [''dir'', dir, ''repo'', repo, ''branch'', fst (parseVersion v version)] tr of
        Inr (None, tr1) \<Rightarrow>
          if snd (parseVersion v version) = [] then Inr (None, tr1)
          else run w v dir (checkoutCmd v) [''version'', snd (parseVersion v version)] tr1
      | r \<Rightarrow> r)
   \<and> (\<exists>err tr'. create w v dir repo version tr = Inr (err, tr')
        \<and> spawned tr' = spawned tr @
             (let c1 = tool_command w v ''.'' (createCmd v)
                         [''dir'' \<mapsto> dir, ''repo'' \<mapsto> repo,
                          ''branch'' \<mapsto> fst (parseVersion v version)];
                  c2 = tool_command w v dir (checkoutCmd v)
                         [''version'' \<mapsto> snd (parseVersion v version)]
              in if isl (LookPath w tr (cmd v)) then []
                 else if snd (Run w tr c1) \<noteq> None then [c1]
                 else if snd (parseVersion v version) = [] then [c1]
                 else if isl (LookPath w (tr @ [Spawn c1]) (cmd v)) then [c1]
                 else [c1, c2]))"
proof -
  let ?tag = "fst (parseVersion v version)" and ?commit = "snd (parseVersion v version)"
  let ?c1 = "tool_command w v ''.'' (createCmd v)
               [''dir'' \<mapsto> dir, ''repo'' \<mapsto> repo, ''branch'' \<mapsto> ?tag]"
  let ?c2 = "tool_command w v dir (checkoutCmd v) [''version'' \<mapsto> ?commit]"
  have eq: "create w v dir repo version tr =
     (case run w v ''.'' (createCmd v) [''dir'', dir, ''repo'', repo, ''branch'', ?tag] tr of
        Inr (None, tr1) \<Rightarrow>
          if ?commit = [] then Inr (None, tr1)
          else run w v dir (checkoutCmd v) [''version'', ?commit] tr1
      | r \<Rightarrow> r)"
    by (simp add: create_def Let_def split: sum.splits option.splits prod.splits)
  have m1: "keyval_loop [''dir'', dir, ''repo'', repo, ''branch'', ?tag] 0 Map.empty
              = Inr [''dir'' \<mapsto> dir, ''repo'' \<mapsto> repo, ''branch'' \<mapsto> ?tag]"
    by (rule keyval_loop_6)
  have m2: "keyval_loop [''version'', ?commit] 0 Map.empty = Inr [''version'' \<mapsto> ?commit]"
    by (rule keyval_loop_2)
  obtain err1 tr1 where
    r1: "run w v ''.'' (createCmd v) [''dir'', dir, ''repo'', repo, ''branch'', ?tag] tr
           = Inr (err1, tr1)"
    and s1: "spawned tr1 = spawned tr @ (if isl (LookPath w tr (cmd v)) then [] else [?c1])"
    and t1: "err1 = None \<longrightarrow> tr1 = tr @ [Spawn ?c1]"
    and e1: "err1 = None \<longleftrightarrow> \<not> isl (LookPath w tr (cmd v)) \<and> snd (Run w tr ?c1) = None"
    using run_spawned [OF m1, of w v "''.''" "createCmd v" tr] by blast
  have "\<exists>err tr'. create w v dir repo version tr = Inr (err, tr')
        \<and> spawned tr' = spawned tr @
             (if isl (LookPath w tr (cmd v)) then []
              else if snd (Run w tr ?c1) \<noteq> None then [?c1]
              else if ?commit = [] then [?c1]
              else if isl (LookPath w (tr @ [Spawn ?c1]) (cmd v)) then [?c1]
              else [?c1, ?c2])"
  proof (cases err1)
    case (Some e)
    with r1 have "create w v dir repo version tr = Inr (Some e, tr1)"
      by (simp add: eq)
    moreover from Some e1 s1 have "spawned tr1 = spawned tr @
             (if isl (LookPath w tr (cmd v)) then []
              else if snd (Run w tr ?c1) \<noteq> None then [?c1]
              else if ?commit = [] then [?c1]
              else if isl (LookPath w (tr @ [Spawn ?c1]) (cmd v)) then [?c1]
              else [?c1, ?c2])"
      by auto
    ultimately show ?thesis by blast
  next
    case None
    with t1 e1 have tr1: "tr1 = tr @ [Spawn ?c1]"
      and ok: "\<not> isl (LookPath w tr (cmd v))" "snd (Run w tr ?c1) = None"
      by simp_all
    show ?thesis
    proof (cases "?commit = []")
      case True
      with None r1 have "create w v dir repo version tr = Inr (None, tr1)"
        by (simp add: eq)
      moreover from True ok tr1 have "spawned tr1 = spawned tr @
             (if isl (LookPath w tr (cmd v)) then []
              else if snd (Run w tr ?c1) \<noteq> None then [?c1]
              else if ?commit = [] then [?c1]
              else if isl (LookPath w (tr @ [Spawn ?c1]) (cmd v)) then [?c1]
              else [?c1, ?c2])"
        by (simp add: spawned_append)
      ultimately show ?thesis by blast
    next
      case False
      obtain err2 tr2 where
        r2: "run w v dir (checkoutCmd v) [''version'', ?commit] tr1 = Inr (err2, tr2)"
        and s2: "spawned tr2 = spawned tr1 @
                   (if isl (LookPath w tr1 (cmd v)) then [] else [?c2])"
        using run_spawned [OF m2, of w v dir "checkoutCmd v" tr1] by blast
      from False None r1 r2 have "create w v dir repo version tr = Inr (err2, tr2)"
        by (simp add: eq)
      moreover from False ok tr1 s2 have "spawned tr2 = spawned tr @
             (if isl (LookPath w tr (cmd v)) then []
              else if snd (Run w tr ?c1) \<noteq> None then [?c1]
              else if ?commit = [] then [?c1]
              else if isl (LookPath w (tr @ [Spawn ?c1]) (cmd v)) then [?c1]
              else [?c1, ?c2])"
        by (simp add: spawned_append)
      ultimately show ?thesis by blast
    qed
  qed
  with eq show ?thesis
    by (simp add: Let_def)
qed

theorem create_steps_witness:
  "\<exists>err tr'. create world_ok vcsGit ''/tmp/w'' ''https://example.com/r.git'' ''sha:abc123'' []
       = Inr (err, tr')
     \<and> spawned tr' =
         [\<lparr>Path = ''git'',
           Args = [''git'', ''clone'', ''https://example.com/r.git'', ''/tmp/w'', ''-b'', ''master''],
           Dir = ''.'', Env = [''PWD=.'']\<rparr>,
          \<lparr>Path = ''git'', Args = [''git'', ''checkout'', ''abc123''],
           Dir = ''/tmp/w'', Env = [''PWD=/tmp/w'']\<rparr>]"
  using create_steps [of world_ok vcsGit "''/tmp/w''" "''https://example.com/r.git''"
      "''sha:abc123''" "[]", THEN conjunct2]
  by (simp add: parseVersion_examples LookPath_world_ok tool_command_def Let_def
      Fields_createCmd Fields_checkoutCmd expand_create_scenario expand_checkout_example
      world_ok_def vcsGit_def del: list.map)

text \<open>
  C2. \<open>checkout\<close> runs one template: the checkout-to-commit template with \<open>version\<close>
  bound to the commit when the parsed commit is not empty, and the update-to-tag
  template with \<open>tag\<close> bound to the parsed tag otherwise, inside the directory in both
  cases. It spawns at most one subprocess, the command of that template.
\<close>

theorem checkout_one_template:
  "checkout w v dir version tr =
     (if snd (parseVersion v version) \<noteq> []
      then run w v dir (checkoutCmd v) [''version'', snd (parseVersion v version)] tr
      else run w v dir (downloadCmd v) [''tag'', fst (parseVersion v version)] tr)
   \<and> (\<exists>err tr'. checkout w v dir version tr = Inr (err, tr')
        \<and> spawned tr' = spawned tr @
             (if isl (LookPath w tr (cmd v)) then []
              else if snd (parseVersion v version) \<noteq> []
                then [tool_command w v dir (checkoutCmd v)
                        [''version'' \<mapsto> snd (parseVersion v version)]]
              else [tool_command w v dir (downloadCmd v)
                      [''tag'' \<mapsto> fst (parseVersion v version)]]))"
proof (cases "snd (parseVersion v version) = []")
  case True
  have m: "keyval_loop [''tag'', fst (parseVersion v version)] 0 Map.empty
             = Inr [''tag'' \<mapsto> fst (parseVersion v version)]"
    by (rule keyval_loop_2)
  from run_spawned [OF m, of w v dir "downloadCmd v" tr] True show ?thesis
    by (auto simp: checkout_def)
next
  case False
  have m: "keyval_loop [''version'', snd (parseVersion v version)] 0 Map.empty
             = Inr [''version'' \<mapsto> snd (parseVersion v version)]"
    by (rule keyval_loop_2)
  from run_spawned [OF m, of w v dir "checkoutCmd v" tr] False show ?thesis
    by (auto simp: checkout_def)
qed

theorem checkout_one_template_witness:
  "(\<exists>err tr'. checkout world_ok vcsGit ''/tmp/w'' ''sha:deadbeef'' [] = Inr (err, tr')
     \<and> spawned tr' =
         [\<lparr>Path = ''git'', Args = [''git'', ''checkout'', ''deadbeef''],
           Dir = ''/tmp/w'', Env = [''PWD=/tmp/w'']\<rparr>])
   \<and> (\<exists>err tr'. checkout world_ok vcsGit ''/tmp/w'' ''release-2'' [] = Inr (err, tr')
     \<and> spawned tr' =
         [\<lparr>Path = ''git'', Args = [''git'', ''checkout'', ''-f'', ''tags/release-2''],
           Dir = ''/tmp/w'', Env = [''PWD=/tmp/w'']\<rparr>])"
  using checkout_one_template [of world_ok vcsGit "''/tmp/w''" "''sha:deadbeef''" "[]",
      THEN conjunct2]
    checkout_one_template [of world_ok vcsGit "''/tmp/w''" "''release-2''" "[]",
      THEN conjunct2]
  by (simp add: parseVersion_examples LookPath_world_ok tool_command_def
      Fields_downloadCmd Fields_checkoutCmd expand_checkout_scenario expand_download_scenario
      world_ok_def vcsGit_def del: list.map)

section \<open>Version parsing\<close>

text \<open>
  C3. A version string that starts with the literal prefix \<open>sha:\<close> parses to the tag
  \<open>master\<close> and to the commit that is the string without its first four bytes, which
  is what follows the prefix.
\<close>

theorem parseVersion_sha_prefix:
  assumes "version = ''sha:'' @ rest"
  shows "parseVersion v version = (''master'', drop 4 version) \<and> drop 4 version = rest"
proof -
  have "HasPrefix version ''sha:''"
    using assms HasPrefix_iff_append by blast
  then show ?thesis
    using assms by (simp add: parseVersion_def)
qed

theorem parseVersion_sha_prefix_witness:
  "parseVersion vcsGit ''sha:abc123'' = (''master'', ''abc123'')"
  using parseVersion_sha_prefix [of "''sha:abc123''" "''abc123''" vcsGit] by simp

text \<open>
  C4. A version string that does not start with \<open>sha:\<close> parses to itself as the tag and
  to the empty commit. Parsing is a total function of the string: nothing is checked
  and no string is refused.
\<close>

theorem parseVersion_no_prefix:
  assumes "\<nexists>rest. version = ''sha:'' @ rest"
  shows "parseVersion v version = (version, '''')"
proof -
  have "\<not> HasPrefix version ''sha:''"
    using assms HasPrefix_iff_append by blast
  then show ?thesis
    by (simp add: parseVersion_def)
qed

theorem parseVersion_no_prefix_witness:
  "parseVersion vcsGit ''v1.2.0'' = (''v1.2.0'', '''')
   \<and> parseVersion vcsGit ''sha'' = (''sha'', '''')
   \<and> parseVersion vcsGit '''' = ('''', '''')"
  using parseVersion_no_prefix [of "''v1.2.0''" vcsGit]
    parseVersion_no_prefix [of "''sha''" vcsGit]
    parseVersion_no_prefix [of "''''" vcsGit]
  by simp

section \<open>The existence check\<close>

text \<open>
  C5. \<open>exists\<close> is true when the stat of the marker entry joined to the directory
  succeeds, and when it fails with an error that is not "does not exist" (a permission
  error, for one); it is false exactly when the stat fails with "does not exist".
\<close>

theorem exists_folds_errors:
  "(\<forall>fi. Stat w tr (path_Join [dst, meta v]) = Inr fi \<longrightarrow> exists w v tr dst)
   \<and> (\<forall>err. Stat w tr (path_Join [dst, meta v]) = Inl err \<and> \<not> IsNotExist err
          \<longrightarrow> exists w v tr dst)
   \<and> (\<not> exists w v tr dst
        \<longleftrightarrow> (\<exists>err. Stat w tr (path_Join [dst, meta v]) = Inl err \<and> IsNotExist err))"
  by (cases "Stat w tr (path_Join [dst, meta v])") (simp_all add: exists_def)

theorem exists_folds_errors_witness:
  "exists world_ok vcsGit [] ''/tmp/w'' \<and> exists world_ok vcsGit [] ''/root''
   \<and> \<not> exists world_ok vcsGit [] ''/tmp/x''"
  using exists_folds_errors [of world_ok "[]" "''/tmp/w''" vcsGit]
    exists_folds_errors [of world_ok "[]" "''/root''" vcsGit]
    exists_folds_errors [of world_ok "[]" "''/tmp/x''" vcsGit]
  by (simp add: world_ok_def vcsGit_def example_Stat_def path_Join_tmp path_Join_root
      path_Join_x IsNotExist_def ENOENT_def)


section \<open>The subprocess runner\<close>

text \<open>
  C6. The runner splits the template into its white-space separated tokens first and
  expands each token on its own: when the key/value sequence pairs up and the tool is
  found, the command spawned has the tool name followed by exactly one argument per
  token, the \<open>i\<close>-th argument being the expansion of the \<open>i\<close>-th token. This holds for
  every \<open>expand\<close>, so whatever a substituted value contains, white space included, it
  stays inside the argument of its token.
\<close>

theorem run1_args_are_tokens:
  assumes "keyval_loop keyval 0 Map.empty = Inr m" and "LookPath w tr (cmd v) = Inr p"
  shows "\<exists>res tr' c. run1 w v dir cmdline keyval verbose tr = Inr (res, tr')
     \<and> spawned tr' = spawned tr @ [c]
     \<and> Args c = cmd v # map (expand w m) (Fields cmdline)
     \<and> length (Args c) = Suc (length (Fields cmdline))
     \<and> (\<forall>i < length (Fields cmdline). Args c ! Suc i = expand w m (Fields cmdline ! i))"
proof -
  let ?c = "tool_command w v dir cmdline m"
  have args: "Args ?c = cmd v # map (expand w m) (Fields cmdline)"
    by (simp add: tool_command_def)
  have "\<exists>res tr'. run1 w v dir cmdline keyval verbose tr = Inr (res, tr')
          \<and> spawned tr' = spawned tr @ [?c]"
    unfolding run1_cases [OF assms(1)] using assms(2)
    by (cases "snd (Run w tr ?c)") (simp_all add: spawned_append)
  with args show ?thesis
    by (metis length_Cons length_map nth_Cons_Suc nth_map)
qed

theorem run1_args_are_tokens_witness:
  "\<exists>res tr' c.
     run1 world_ok vcsGit ''.'' ''clone {repo} {dir} -b {branch}''
       [''dir'', ''/tmp/w'', ''repo'', ''https://x/y z.git'', ''branch'', ''master''] True []
       = Inr (res, tr')
     \<and> spawned tr' = [c]
     \<and> Args c = [''git'', ''clone'', ''https://x/y z.git'', ''/tmp/w'', ''-b'', ''master'']
     \<and> length (Args c) = 6"
  using run1_args_are_tokens
      [where keyval = "[''dir'', ''/tmp/w'', ''repo'', ''https://x/y z.git'', ''branch'', ''master'']"
        and m = "[''dir'' \<mapsto> ''/tmp/w'', ''repo'' \<mapsto> ''https://x/y z.git'',
                  ''branch'' \<mapsto> ''master'']"
        and w = world_ok and v = vcsGit and tr = "[]" and p = "''/usr/bin/git''"
        and dir = "''.''" and cmdline = "''clone {repo} {dir} -b {branch}''"
        and verbose = True,
       OF keyval_loop_6 LookPath_world_ok]
  by (fastforce simp: Fields_createCmd expand_create_example world_ok_def vcsGit_def
      simp del: list.map)

text \<open>
  C7. When the tool cannot be resolved, the runner, given a key/value sequence of even
  length as every caller passes, returns the error of the lookup and no output; its
  only effect is one log line, so no subprocess is spawned and nothing is done to the
  target directory. The outcome never depends on what running a command would do: the
  lookup fails before any command is built. (A sequence of odd length makes the pairing
  loop panic before the lookup, with no effect at all; see C10.)
\<close>

theorem run1_tool_not_found:
  assumes "LookPath w tr (cmd v) = Inl err"
  shows "(if even (length keyval)
          then run1 w v dir cmdline keyval verbose tr =
                 Inr (([], Some err),
                      tr @ [LogPrintf (''gover: missing '' @ name v
                              @ '' command. See http://golang.org/s/gogetcmd'' @ [CHR 0x0A])])
          else run1 w v dir cmdline keyval verbose tr = Inl IndexOutOfRange)
     \<and> spawned (tr @ [LogPrintf (''gover: missing '' @ name v
                        @ '' command. See http://golang.org/s/gogetcmd'' @ [CHR 0x0A])])
         = spawned tr
     \<and> (\<forall>r. run1 (w\<lparr>Run := r\<rparr>) v dir cmdline keyval verbose tr
              = run1 w v dir cmdline keyval verbose tr)"
proof (cases "even (length keyval)")
  case True
  then obtain m where m: "keyval_loop keyval 0 Map.empty = Inr m"
    using keyval_loop_Inr_iff by blast
  have "run1 w v dir cmdline keyval verbose tr =
           Inr (([], Some err),
                tr @ [LogPrintf (''gover: missing '' @ name v
                        @ '' command. See http://golang.org/s/gogetcmd'' @ [CHR 0x0A])])"
    using m assms by (rule run1_no_tool)
  moreover have "run1 (w\<lparr>Run := r\<rparr>) v dir cmdline keyval verbose tr =
           Inr (([], Some err),
                tr @ [LogPrintf (''gover: missing '' @ name v
                        @ '' command. See http://golang.org/s/gogetcmd'' @ [CHR 0x0A])])" for r
    using m assms by (simp add: run1_no_tool)
  ultimately show ?thesis
    using True by (simp add: spawned_append)
next
  case False
  then have p: "keyval_loop keyval 0 Map.empty = Inl IndexOutOfRange"
    by (simp add: keyval_loop_panic_iff)
  then have "run1 w' v dir cmdline keyval verbose tr = Inl IndexOutOfRange" for w'
    by (rule run1_panic)
  then show ?thesis
    using False by (simp add: spawned_append)
qed

theorem run1_tool_not_found_witness:
  "run1 world_no_tool vcsGit ''/tmp/w'' ''checkout {version}'' [''version'', ''abc123''] True []
     = Inr (([], Some (ExecError ''git'' ErrNotFound)),
            [LogPrintf (''gover: missing Git command. See http://golang.org/s/gogetcmd''
               @ [CHR 0x0A])])"
  using run1_tool_not_found [of world_no_tool "[]" vcsGit
      "ExecError ''git'' ErrNotFound" "[''version'', ''abc123'']" "''/tmp/w''"
      "''checkout {version}''" True]
  by (simp add: LookPath_world_no_tool) (simp add: vcsGit_def)

text \<open>
  C8. Whenever the runner returns an error, the output it returns is empty. With a
  well-formed key/value sequence and the tool found: if the spawned command fails, the
  runner returns that error and the empty output; if it succeeds, the runner returns
  the captured combined output and no error, and its only effect is the spawn.
\<close>

theorem run1_output_only_on_success:
  "(\<forall>out e tr'. run1 w v dir cmdline keyval verbose tr = Inr ((out, Some e), tr')
       \<longrightarrow> out = [])
   \<and> (\<forall>m p. keyval_loop keyval 0 Map.empty = Inr m \<and> LookPath w tr (cmd v) = Inr p \<longrightarrow>
         (case snd (Run w tr (tool_command w v dir cmdline m)) of
            Some e \<Rightarrow>
              \<exists>tr'. run1 w v dir cmdline keyval verbose tr = Inr (([], Some e), tr')
          | None \<Rightarrow>
              run1 w v dir cmdline keyval verbose tr =
                Inr ((fst (Run w tr (tool_command w v dir cmdline m)), None),
                     tr @ [Spawn (tool_command w v dir cmdline m)])))"
proof (intro conjI allI impI)
  fix out e tr'
  assume "run1 w v dir cmdline keyval verbose tr = Inr ((out, Some e), tr')"
  then show "out = []" by (rule run1_error_no_output)
next
  fix m p
  assume "keyval_loop keyval 0 Map.empty = Inr m \<and> LookPath w tr (cmd v) = Inr p"
  then have m: "keyval_loop keyval 0 Map.empty = Inr m" and p: "LookPath w tr (cmd v) = Inr p"
    by simp_all
  show "case snd (Run w tr (tool_command w v dir cmdline m)) of
          Some e \<Rightarrow>
            \<exists>tr'. run1 w v dir cmdline keyval verbose tr = Inr (([], Some e), tr')
        | None \<Rightarrow>
            run1 w v dir cmdline keyval verbose tr =
              Inr ((fst (Run w tr (tool_command w v dir cmdline m)), None),
                   tr @ [Spawn (tool_command w v dir cmdline m)])"
  proof (cases "snd (Run w tr (tool_command w v dir cmdline m))")
    case None
    then show ?thesis
      using run1_succeeded [OF m p] by simp
  next
    case (Some e)
    then show ?thesis
      using run1_failed [OF m p] by simp
  qed
qed

theorem run1_output_only_on_success_witness:
  "(\<exists>tr'. run1 world_exit vcsGit ''/tmp/w'' ''checkout {version}'' [''version'', ''abc123'']
             True [] = Inr (([], Some (ExitError 128)), tr'))
   \<and> run1 world_ok vcsGit ''/tmp/w'' ''checkout {version}'' [''version'', ''abc123''] True []
       = Inr ((''done'', None),
              [Spawn (tool_command world_ok vcsGit ''/tmp/w'' ''checkout {version}''
                        [''version'' \<mapsto> ''abc123''])])"
  using run1_output_only_on_success [of world_exit vcsGit "''/tmp/w''" "''checkout {version}''"
      "[''version'', ''abc123'']" True "[]", THEN conjunct2]
    run1_output_only_on_success [of world_ok vcsGit "''/tmp/w''" "''checkout {version}''"
      "[''version'', ''abc123'']" True "[]", THEN conjunct2]
  by (simp add: keyval_loop_2 LookPath_world_ok LookPath_world_exit Run_world_exit Run_world_ok)

section \<open>The empty commit, and the bounds of the pairing loop\<close>

text \<open>
  C9. The version \<open>sha:\<close>, the prefix with nothing after it, parses to the tag
  \<open>master\<close> and the empty commit. So \<open>checkout\<close> is one run of the update-to-tag template
  with \<open>tag\<close> bound to \<open>master\<close>, and \<open>create\<close> is one run of the create template with
  \<open>branch\<close> bound to \<open>master\<close> and no second step; neither reports the empty commit.
\<close>

theorem sha_prefix_empty_commit:
  "parseVersion v ''sha:'' = (''master'', [])
   \<and> checkout w v dir ''sha:'' tr = run w v dir (downloadCmd v) [''tag'', ''master''] tr
   \<and> create w v dir repo ''sha:'' tr
       = run w v ''.'' (createCmd v) [''dir'', dir, ''repo'', repo, ''branch'', ''master''] tr
   \<and> (\<exists>err tr'. checkout w v dir ''sha:'' tr = Inr (err, tr')
        \<and> spawned tr' = spawned tr @
             (if isl (LookPath w tr (cmd v)) then []
              else [tool_command w v dir (downloadCmd v) [''tag'' \<mapsto> ''master'']]))
   \<and> (\<exists>err tr'. create w v dir repo ''sha:'' tr = Inr (err, tr')
        \<and> spawned tr' = spawned tr @
             (if isl (LookPath w tr (cmd v)) then []
              else [tool_command w v ''.'' (createCmd v)
                      [''dir'' \<mapsto> dir, ''repo'' \<mapsto> repo, ''branch'' \<mapsto> ''master'']]))"
proof -
  have pv: "parseVersion v ''sha:'' = (''master'', [])"
    by (simp add: parseVersion_def HasPrefix_def)
  have co: "checkout w v dir ''sha:'' tr = run w v dir (downloadCmd v) [''tag'', ''master''] tr"
    by (simp add: checkout_def pv)
  have cr: "create w v dir repo ''sha:'' tr
       = run w v ''.'' (createCmd v) [''dir'', dir, ''repo'', repo, ''branch'', ''master''] tr"
    by (simp add: create_def pv split: sum.splits option.splits prod.splits)
  have "\<exists>err tr'. checkout w v dir ''sha:'' tr = Inr (err, tr')
        \<and> spawned tr' = spawned tr @
             (if isl (LookPath w tr (cmd v)) then []
              else [tool_command w v dir (downloadCmd v) [''tag'' \<mapsto> ''master'']])"
    unfolding co using run_spawned [OF keyval_loop_2] by blast
  moreover have "\<exists>err tr'. create w v dir repo ''sha:'' tr = Inr (err, tr')
        \<and> spawned tr' = spawned tr @
             (if isl (LookPath w tr (cmd v)) then []
              else [tool_command w v ''.'' (createCmd v)
                      [''dir'' \<mapsto> dir, ''repo'' \<mapsto> repo, ''branch'' \<mapsto> ''master'']])"
    unfolding cr using run_spawned [OF keyval_loop_6] by blast
  ultimately show ?thesis
    using pv co cr by blast
qed

theorem sha_prefix_empty_commit_witness:
  "(\<exists>err tr'. checkout world_ok vcsGit ''/tmp/w'' ''sha:'' [] = Inr (err, tr')
      \<and> spawned tr' =
           [\<lparr>Path = ''git'', Args = [''git'', ''checkout'', ''-f'', ''tags/master''],
             Dir = ''/tmp/w'', Env = [''PWD=/tmp/w'']\<rparr>])
   \<and> (\<exists>err tr'. create world_ok vcsGit ''/tmp/w'' ''https://x/y z.git'' ''sha:'' []
         = Inr (err, tr')
      \<and> spawned tr' =
           [\<lparr>Path = ''git'',
             Args = [''git'', ''clone'', ''https://x/y z.git'', ''/tmp/w'', ''-b'', ''master''],
             Dir = ''.'', Env = [''PWD=.'']\<rparr>])"
  using sha_prefix_empty_commit [of vcsGit world_ok "''/tmp/w''" "[]" "''https://x/y z.git''",
      THEN conjunct2, THEN conjunct2, THEN conjunct2]
  by (simp add: LookPath_world_ok tool_command_def Fields_downloadCmd Fields_createCmd
      expand_download_example expand_create_example world_ok_def vcsGit_def del: list.map)

text \<open>
  C10. The pairing loop reads \<open>keyval[i+1]\<close> for every even \<open>i\<close> below the length, so it
  panics with an index out of range exactly when the length is odd, and so does the
  runner. \<open>create\<close> and \<open>checkout\<close> pass sequences of six and of two elements: they never
  panic.
\<close>

theorem keyval_pairs_in_bounds:
  "(keyval_loop keyval 0 Map.empty = Inl IndexOutOfRange \<longleftrightarrow> odd (length keyval))
   \<and> (run1 w v dir cmdline keyval verbose tr = Inl IndexOutOfRange \<longleftrightarrow> odd (length keyval))
   \<and> (\<exists>r. create w v dir repo version tr = Inr r)
   \<and> (\<exists>r. checkout w v dir version tr = Inr r)"
proof -
  have loop: "keyval_loop keyval 0 Map.empty = Inl IndexOutOfRange \<longleftrightarrow> odd (length keyval)"
    by (rule keyval_loop_panic_iff)
  have runner: "run1 w v dir cmdline keyval verbose tr = Inl IndexOutOfRange
      \<longleftrightarrow> odd (length keyval)"
  proof (cases "keyval_loop keyval 0 Map.empty")
    case (Inl p)
    then have "keyval_loop keyval 0 Map.empty = Inl IndexOutOfRange"
      by (cases p) simp
    with loop show ?thesis
      by (simp add: run1_panic)
  next
    case (Inr m)
    with loop have "even (length keyval)" by simp
    moreover have "run1 w v dir cmdline keyval verbose tr \<noteq> Inl IndexOutOfRange"
      unfolding run1_cases [OF Inr] by (simp split: sum.splits option.splits)
    ultimately show ?thesis by simp
  qed
  have "\<exists>r. create w v dir repo version tr = Inr r"
    using create_total by blast
  moreover have "\<exists>r. checkout w v dir version tr = Inr r"
    using checkout_total by blast
  ultimately show ?thesis
    using loop runner by blast
qed

theorem keyval_pairs_in_bounds_witness:
  "run1 world_ok vcsGit ''/tmp/w'' ''checkout {version}'' [''version''] True []
     = Inl IndexOutOfRange
   \<and> run1 world_ok vcsGit ''/tmp/w'' ''checkout {version}'' [''version'', ''abc123''] True []
     \<noteq> Inl IndexOutOfRange
   \<and> (\<exists>r. create world_ok vcsGit ''/tmp/w'' ''https://example.com/r.git'' ''sha:abc123'' []
          = Inr r)
   \<and> (\<exists>r. checkout world_ok vcsGit ''/tmp/w'' ''sha:abc123'' [] = Inr r)"
  using keyval_pairs_in_bounds [where keyval = "[''version'']" and w = world_ok
      and v = vcsGit and dir = "''/tmp/w''" and cmdline = "''checkout {version}''"
      and verbose = True and tr = "[]" and repo = "''https://example.com/r.git''"
      and version = "''sha:abc123''"]
    keyval_pairs_in_bounds [where keyval = "[''version'', ''abc123'']" and w = world_ok
      and v = vcsGit and dir = "''/tmp/w''" and cmdline = "''checkout {version}''"
      and verbose = True and tr = "[]" and repo = "''https://example.com/r.git''"
      and version = "''sha:abc123''"]
  by simp

end
